theory Spec2Isabelle
  imports Main "HOL-Library.Word"
begin

section \<open>The blog post service of puzzleblogserver\<close>

text \<open>
  The repository holds the package \<open>blogserver\<close> twice: \<^verbatim>\<open>src/server.go\<close> (the handlers
  that use the helper package \<open>puzzlemongoclient\<close> and return the assigned identifier) and
  \<^verbatim>\<open>src/blogserver/blogserver.go\<close> (the handlers with package-local helpers). Both are
  embedded. A function of \<^verbatim>\<open>src/server.go\<close> keeps its name; a function of
  \<^verbatim>\<open>src/blogserver/blogserver.go\<close> whose name is taken carries the suffix \<open>_bs\<close>.
\<close>

subsection \<open>Values and documents\<close>

text \<open>
  A Go value of type \<open>any\<close> as the handlers meet it: the BSON integers, a Go \<open>uint64\<close>
  (a request field put into a document before it is encoded), a Go \<open>int\<close> (the sort
  direction), strings, object identifiers (12 bytes, big-endian), booleans, nested
  documents, and \<open>VOther\<close> for a value of any other dynamic type (nil, a double, a date,
  an array).
\<close>

datatype bval =
    VInt32 "32 word"
  | VInt64 "64 word"
  | VUint64 "64 word"
  | VInt int
  | VStr string
  | VObjectID "96 word"
  | VBool bool
  | VDoc "(string \<times> bval) list"
  | VOther

text \<open>\<open>bson.D\<close> is an ordered list of key and value, \<open>bson.M\<close> a Go map.\<close>

type_synonym bsonD = "(string \<times> bval) list"
type_synonym bsonM = "string \<rightharpoonup> bval"

definition idKey :: string where "idKey = ''_id''"
definition blogIdKey :: string where "blogIdKey = ''blogId''"
definition postIdKey :: string where "postIdKey = ''postId''"
definition userIdKey :: string where "userIdKey = ''userId''"
definition titleKey :: string where "titleKey = ''title''"
definition textKey :: string where "textKey = ''text''"

lemmas keys_defs = idKey_def blogIdKey_def postIdKey_def userIdKey_def titleKey_def textKey_def

text \<open>The two errors the handlers return, and a run-time panic (an index out of range).\<close>

datatype err = errInternal | errNoPost | Panic

text \<open>
  The messages of the service (\<open>pb.Response\<close>, \<open>pb.Content\<close>, \<open>pb.Contents\<close> and the
  requests): every numeric field is a \<open>uint64\<close> but \<open>CreatedAt\<close>, an \<open>int64\<close>.
\<close>

record Response =
  Success :: bool
  Id_r :: "64 word"

record Content =
  PostId :: "64 word"
  UserId :: "64 word"
  Title :: string
  Text :: string
  CreatedAt :: "64 word"

record Contents =
  List_r :: "Content list"
  Total :: "64 word"

record CreateRequest =
  cr_BlogId :: "64 word"
  cr_UserId :: "64 word"
  cr_Title :: string
  cr_Text :: string


record SearchRequest =
  sr_BlogId :: "64 word"
  sr_Start :: "64 word"
  sr_End :: "64 word"
  sr_Filter :: string

subsection \<open>Strings\<close>

text \<open>
  \<open>strings.Index\<close> and \<open>strings.LastIndex\<close>: the index of the first and of the last
  occurrence of \<open>sub\<close>, or \<open>-1\<close>. \<open>strings.ReplaceAll\<close> replaces the non-overlapping
  occurrences of a non-empty \<open>old\<close> from the left; the handlers call it with \<open>old = ''%''\<close>
  only, and the equation for an empty \<open>old\<close> (where Go works on UTF-8 sequences) is never
  reached.
\<close>

fun Index :: "string \<Rightarrow> string \<Rightarrow> int" where
  "Index [] sub = (if sub = [] then 0 else -1)"
| "Index (c # s) sub =
     (if take (length sub) (c # s) = sub then 0
      else (let i = Index s sub in if i < 0 then -1 else i + 1))"

fun LastIndex :: "string \<Rightarrow> string \<Rightarrow> int" where
  "LastIndex [] sub = (if sub = [] then 0 else -1)"
| "LastIndex (c # s) sub =
     (let i = LastIndex s sub in
      if 0 \<le> i then i + 1
      else if take (length sub) (c # s) = sub then 0 else -1)"

function ReplaceAll :: "string \<Rightarrow> string \<Rightarrow> string \<Rightarrow> string" where
  "ReplaceAll s [] new = s"
| "ReplaceAll [] (a # old) new = []"
| "ReplaceAll (c # s) (a # old) new =
     (if take (length (a # old)) (c # s) = a # old
      then new @ ReplaceAll (drop (length (a # old)) (c # s)) (a # old) new
      else c # ReplaceAll s (a # old) new)"
  by pat_completeness auto
termination
  by (relation "measure (\<lambda>(s, old, new). length s)") auto

subsection \<open>The filter on the title\<close>

text \<open>\<open>buildRegexFilter\<close> of \<^verbatim>\<open>src/server.go\<close>.\<close>

definition buildRegexFilter :: "string \<Rightarrow> bsonD" where
  "buildRegexFilter flt0 =
     (let flt = ReplaceAll flt0 ''%'' ''.*'';
          b1 = (if Index flt ''.*'' \<noteq> 0 then ''.*'' else '''');
          b2 = b1 @ flt;
          b3 = (if LastIndex flt ''.*'' \<noteq> int (length flt) - 2 then b2 @ ''.*'' else b2)
      in [(''$regex'', VStr b3)])"

text \<open>\<open>buildFilterRegex\<close> of \<^verbatim>\<open>src/blogserver/blogserver.go\<close>: no replacement of \<open>%\<close>.\<close>

definition buildFilterRegex :: "string \<Rightarrow> bsonD" where
  "buildFilterRegex flt =
     (let b1 = (if Index flt ''.*'' \<noteq> 0 then ''.*'' else '''');
          b2 = b1 @ flt;
          b3 = (if LastIndex flt ''.*'' \<noteq> int (length flt) - 2 then b2 @ ''.*'' else b2)
      in [(''$regex'', VStr b3)])"

subsection \<open>Documents to response entities\<close>

text \<open>
  \<open>extractUint64\<close> of \<^verbatim>\<open>src/blogserver/blogserver.go\<close>: the conversion of an \<open>int32\<close>
  extends the sign, that of an \<open>int64\<close> keeps the bits, any other value gives 0.
\<close>

fun extractUint64 :: "bval option \<Rightarrow> 64 word" where
  "extractUint64 (Some (VInt32 casted)) = scast casted"
| "extractUint64 (Some (VInt64 casted)) = casted"
| "extractUint64 _ = 0"

text \<open>
  \<open>ObjectID.Timestamp().Unix()\<close>: the first four bytes of the identifier, read as an
  unsigned big-endian number of seconds.
\<close>

definition Timestamp_Unix :: "96 word \<Rightarrow> 64 word" where
  "Timestamp_Unix oid = ucast (ucast (drop_bit 64 oid) :: 32 word)"

text \<open>A failed type assertion \<open>v, _ := x.(T)\<close> leaves the zero value of \<open>T\<close>.\<close>

fun as_string :: "bval option \<Rightarrow> string" where
  "as_string (Some (VStr s)) = s"
| "as_string _ = []"

fun as_ObjectID :: "bval option \<Rightarrow> 96 word" where
  "as_ObjectID (Some (VObjectID oid)) = oid"
| "as_ObjectID _ = 0"

definition convertToContent_bs :: "bsonM \<Rightarrow> Content" where
  "convertToContent_bs post =
     (let title = as_string (post titleKey);
          text = as_string (post textKey);
          oid = as_ObjectID (post idKey)
      in \<lparr>PostId = extractUint64 (post postIdKey), UserId = extractUint64 (post userIdKey),
          Title = title, Text = text, CreatedAt = Timestamp_Unix oid\<rparr>)"

definition convertToContents :: "bsonM list \<Rightarrow> Content list" where
  "convertToContents posts = (let contents = [] in contents)"

text \<open>
  Modelled from the spec: \<open>mongoclient.ExtractUint64\<close>, \<open>mongoclient.ExtractCreateDate\<close>
  and \<open>mongoclient.ConvertSlice\<close> belong to the helper package, which is not under
  \<^verbatim>\<open>src/\<close>. The spec has numeric fields that are absent or of an unexpected type default
  to zero, the creation time derived from the engine's record identifier, and each
  returned post converted; they are taken to be the package-local code they replaced.
\<close>

definition ExtractUint64 :: "bval option \<Rightarrow> 64 word" where
  "ExtractUint64 v = extractUint64 v"

definition ExtractCreateDate_Unix :: "bsonM \<Rightarrow> 64 word" where
  "ExtractCreateDate_Unix doc = Timestamp_Unix (as_ObjectID (doc idKey))"

definition ConvertSlice :: "bsonM list \<Rightarrow> (bsonM \<Rightarrow> 'a) \<Rightarrow> 'a list" where
  "ConvertSlice docs converter = map converter docs"

definition convertToContent :: "bsonM \<Rightarrow> Content" where
  "convertToContent post =
     (let title = as_string (post titleKey);
          text = as_string (post textKey)
      in \<lparr>PostId = ExtractUint64 (post postIdKey), UserId = ExtractUint64 (post userIdKey),
          Title = title, Text = text, CreatedAt = ExtractCreateDate_Unix post\<rparr>)"

subsection \<open>The storage engine\<close>

text \<open>
  The collection \<open>posts\<close> and the driver calls of the handlers. The engine is outside the
  repository; this is the model the handlers run against. The collection holds posts as
  \<open>CreatePost\<close> writes them (the driver encodes a \<open>uint64\<close> as a signed 64-bit integer and
  adds the identifier \<open>_id\<close>), and has the unique index on \<open>(blogId, postId)\<close> the handler
  relies on ("rely on the mongo server to ensure there will be no duplicate").

  A call whose query or document holds a \<open>uint64\<close> above \<open>MaxInt64\<close> fails in the
  driver, which refuses to encode the value: the call does not reach the engine, consumes no
  event and leaves the world as it is. Every other driver call consumes one event of the
  world's script: \<open>Fail e\<close> makes the call fail with the error \<open>e\<close> (a lost connection, a
  failed decoding), \<open>Others cs\<close> lets other clients change the collection just before the
  call is served. With the script used up the call is served undisturbed.
\<close>

record post =
  p_id :: "96 word"
  p_blogId :: "64 word"
  p_postId :: "64 word"
  p_userId :: "64 word"
  p_title :: string
  p_text :: string

datatype mongo_err = ErrNoDocuments | DuplicateKeyError | OtherError

datatype change = Inserted post | Deleted "64 word" "64 word"

datatype event = Fail mongo_err | Others "change list"

record world =
  docs :: "post list"
  script :: "event list"
  fresh :: "96 word"
  regex :: "string \<Rightarrow> string \<Rightarrow> bool"

definition dup_key :: "post \<Rightarrow> post list \<Rightarrow> bool" where
  "dup_key p ds = list_ex (\<lambda>q. p_blogId q = p_blogId p \<and> p_postId q = p_postId p) ds"

fun apply_change :: "change \<Rightarrow> post list \<Rightarrow> post list" where
  "apply_change (Inserted p) ds = (if dup_key p ds then ds else ds @ [p])"
| "apply_change (Deleted b i) ds = filter (\<lambda>q. \<not> (p_blogId q = b \<and> p_postId q = i)) ds"

definition serve :: "world \<Rightarrow> mongo_err option \<times> world" where
  "serve w =
     (case script w of
        [] \<Rightarrow> (None, w)
      | Fail e # evs \<Rightarrow> (Some e, w\<lparr>script := evs\<rparr>)
      | Others cs # evs \<Rightarrow> (None, w\<lparr>docs := fold apply_change cs (docs w), script := evs\<rparr>))"

text \<open>
  A query document is read field by field: a number under \<open>blogId\<close>, \<open>postId\<close> or
  \<open>userId\<close> is an equality, \<open>{$regex: pat}\<close> under \<open>title\<close> asks the engine's regular
  expressions (the field \<open>regex\<close> of the world); nothing else is sent by the handlers.
\<close>

fun match_field :: "(string \<Rightarrow> string \<Rightarrow> bool) \<Rightarrow> post \<Rightarrow> string \<times> bval \<Rightarrow> bool" where
  "match_field rx p (k, VUint64 n) =
     (if k = blogIdKey then p_blogId p = n
      else if k = postIdKey then p_postId p = n
      else if k = userIdKey then p_userId p = n else False)"
| "match_field rx p (k, VDoc [(opr, VStr pat)]) =
     (k = titleKey \<and> opr = ''$regex'' \<and> rx pat (p_title p))"
| "match_field rx p (k, v) = False"

definition matches :: "(string \<Rightarrow> string \<Rightarrow> bool) \<Rightarrow> bsonD \<Rightarrow> post \<Rightarrow> bool" where
  "matches rx flt p = list_all (match_field rx p) flt"

text \<open>
  The sort \<open>{postId: -1}\<close> is descending on the signed value; without a sort the engine
  answers in insertion order.
\<close>

definition sort_docs :: "bsonD \<Rightarrow> post list \<Rightarrow> post list" where
  "sort_docs srt ds =
     (if srt = [(postIdKey, VInt (- 1))] then sort_key (\<lambda>p. - sint (p_postId p)) ds else ds)"

definition stored :: "post \<Rightarrow> bsonD" where
  "stored p =
     [(idKey, VObjectID (p_id p)), (blogIdKey, VInt64 (p_blogId p)),
      (postIdKey, VInt64 (p_postId p)), (userIdKey, VInt64 (p_userId p)),
      (titleKey, VStr (p_title p)), (textKey, VStr (p_text p))]"

text \<open>A projection keeps \<open>_id\<close> and the fields it names; the empty one keeps all.\<close>

definition project :: "bsonD \<Rightarrow> post \<Rightarrow> bsonD" where
  "project proj p =
     (if proj = [] then stored p
      else filter (\<lambda>kv. fst kv = idKey \<or> (fst kv, VBool True) \<in> set proj) (stored p))"

text \<open>
  The driver's encoder: a Go \<open>uint64\<close> is written as a signed 64-bit integer and refused
  above \<open>MaxInt64\<close>. The handlers nest only strings in a document, so the values of a
  document are checked at its top level.
\<close>

definition MaxInt64 :: "64 word" where
  "MaxInt64 = 0x7FFFFFFFFFFFFFFF"

fun encodable :: "bval \<Rightarrow> bool" where
  "encodable (VUint64 n) = (n \<le> MaxInt64)"
| "encodable v = True"

definition marshal :: "bsonD \<Rightarrow> bool" where
  "marshal d = list_all (\<lambda>kv. encodable (snd kv)) d"

record FindOneOptions =
  o_Sort :: bsonD
  o_Projection :: bsonD

record FindOptions =
  f_Sort :: bsonD
  f_Skip :: "64 word option"
  f_Limit :: "64 word option"

definition Connect :: "world \<Rightarrow> (mongo_err + unit) \<times> world" where
  "Connect w = (case serve w of (Some e, w') \<Rightarrow> (Inl e, w') | (None, w') \<Rightarrow> (Inr (), w'))"

text \<open>\<open>collection.FindOne(ctx, filter, opts).Decode(&result)\<close>, the result a \<open>bson.D\<close>.\<close>

definition FindOne :: "bsonD \<Rightarrow> FindOneOptions \<Rightarrow> world \<Rightarrow> (mongo_err + bsonD) \<times> world" where
  "FindOne flt opts w =
     (if \<not> marshal flt then (Inl OtherError, w)
      else case serve w of
        (Some e, w') \<Rightarrow> (Inl e, w')
      | (None, w') \<Rightarrow>
          (case sort_docs (o_Sort opts) (filter (matches (regex w') flt) (docs w')) of
             [] \<Rightarrow> (Inl ErrNoDocuments, w')
           | p # ps \<Rightarrow> (Inr (project (o_Projection opts) p), w')))"

text \<open>
  \<open>collection.InsertOne(ctx, post)\<close>: the driver gives the document a fresh \<open>_id\<close> and
  encodes it (\<open>post_of\<close>, which is \<open>None\<close> where the encoder refuses a number of the
  document); the unique index refuses a second post with the same \<open>blogId\<close> and \<open>postId\<close>.
\<close>

definition post_of :: "96 word \<Rightarrow> bsonM \<Rightarrow> post option" where
  "post_of oid doc =
     (case doc blogIdKey of Some (VUint64 b) \<Rightarrow>
       (case doc postIdKey of Some (VUint64 i) \<Rightarrow>
         (case doc userIdKey of Some (VUint64 u) \<Rightarrow>
           (case doc titleKey of Some (VStr t) \<Rightarrow>
             (case doc textKey of Some (VStr x) \<Rightarrow>
                if b \<le> MaxInt64 \<and> i \<le> MaxInt64 \<and> u \<le> MaxInt64
                then Some \<lparr>p_id = oid, p_blogId = b, p_postId = i, p_userId = u,
                           p_title = t, p_text = x\<rparr>
                else None
              | _ \<Rightarrow> None)
            | _ \<Rightarrow> None)
          | _ \<Rightarrow> None)
        | _ \<Rightarrow> None)
      | _ \<Rightarrow> None)"

definition InsertOne :: "bsonM \<Rightarrow> world \<Rightarrow> (mongo_err + unit) \<times> world" where
  "InsertOne doc w =
     (case post_of (fresh w) doc of
        None \<Rightarrow> (Inl OtherError, w)
      | Some p \<Rightarrow>
          (case serve w of
             (Some e, w') \<Rightarrow> (Inl e, w')
           | (None, w') \<Rightarrow>
               if dup_key p (docs w') then (Inl DuplicateKeyError, w')
               else (Inr (), w'\<lparr>docs := docs w' @ [p], fresh := fresh w' + 1\<rparr>)))"

definition CountDocuments :: "bsonD \<Rightarrow> world \<Rightarrow> (mongo_err + 64 word) \<times> world" where
  "CountDocuments flt w =
     (if \<not> marshal flt then (Inl OtherError, w)
      else case serve w of
        (Some e, w') \<Rightarrow> (Inl e, w')
      | (None, w') \<Rightarrow> (Inr (of_nat (length (filter (matches (regex w') flt) (docs w')))), w'))"

text \<open>
  \<open>collection.Find(ctx, filters, opts)\<close>: the engine refuses a negative skip; a limit of 0
  is no limit, and of a negative limit the engine takes the absolute value.
\<close>

definition Find :: "bsonD \<Rightarrow> FindOptions \<Rightarrow> world \<Rightarrow> (mongo_err + post list) \<times> world" where
  "Find flt opts w =
     (if \<not> marshal flt then (Inl OtherError, w)
      else case serve w of
        (Some e, w') \<Rightarrow> (Inl e, w')
      | (None, w') \<Rightarrow>
          (let ds = sort_docs (f_Sort opts) (filter (matches (regex w') flt) (docs w'));
               skip = (case f_Skip opts of None \<Rightarrow> 0 | Some k \<Rightarrow> sint k);
               limit = (case f_Limit opts of None \<Rightarrow> 0 | Some l \<Rightarrow> sint l)
           in if skip < 0 then (Inl OtherError, w')
              else if limit = 0 then (Inr (drop (nat skip) ds), w')
              else (Inr (take (nat \<bar>limit\<bar>) (drop (nat skip) ds)), w')))"

text \<open>\<open>cursor.All(ctx, &results)\<close>, the results a slice of \<open>bson.M\<close>.\<close>

definition All :: "post list \<Rightarrow> world \<Rightarrow> (mongo_err + bsonM list) \<times> world" where
  "All cursor w =
     (case serve w of
        (Some e, w') \<Rightarrow> (Inl e, w')
      | (None, w') \<Rightarrow> (Inr (map (\<lambda>p. map_of (stored p)) cursor), w'))"


text \<open>
  A matcher for the patterns made of literal characters and the token \<open>.*\<close>, unanchored
  as the engine's regular expressions are. It reads every other character as itself, which
  the engine does not for the metacharacters of its regular expressions; it is the
  \<open>regex\<close> of the example worlds only, whose patterns have none, and every general
  statement is about an arbitrary \<open>regex\<close>.
\<close>

function match_here :: "string \<Rightarrow> string \<Rightarrow> bool" where
  "match_here [] t = True"
| "match_here (c # p) [] = (c = CHR ''.'' \<and> take 1 p = ''*'' \<and> match_here (drop 1 p) [])"
| "match_here (c # p) (d # t) =
     (if c = CHR ''.'' \<and> take 1 p = ''*''
      then match_here (drop 1 p) (d # t) \<or> match_here (c # p) t
      else c = d \<and> match_here p t)"
  by pat_completeness auto
termination
  by (relation "measure (\<lambda>(p, t). length p + length t)") auto

fun simple_regex :: "string \<Rightarrow> string \<Rightarrow> bool" where
  "simple_regex p [] = match_here p []"
| "simple_regex p (d # t) = (match_here p (d # t) \<or> simple_regex p t)"

subsection \<open>The handlers of src/server.go\<close>

definition optsMaxPostId :: FindOneOptions where
  "optsMaxPostId =
     \<lparr>o_Sort = [(postIdKey, VInt (- 1))], o_Projection = [(postIdKey, VBool True)]\<rparr>"


text \<open>\<open>xs[i]\<close>, which panics out of range.\<close>

definition index :: "'a list \<Rightarrow> nat \<Rightarrow> 'a option" where
  "index xs i = (if i < length xs then Some (xs ! i) else None)"

text \<open>
  \<open>CreatePost\<close>. The code between the label \<open>GeneratePostIdStep\<close> and the label
  \<open>CreatePostStep\<close> yields the candidate identifier (or the error the handler returns): on
  \<open>mongo.ErrNoDocuments\<close> it jumps to \<open>CreatePostStep\<close> with \<open>newPostId\<close> as it is. The
  code from \<open>CreatePostStep\<close> on inserts, and answers \<open>None\<close> where the handler jumps back
  to \<open>GeneratePostIdStep\<close>. The jumps make a loop with no bound: \<open>CreatePost_loop\<close> runs at
  most \<open>fuel\<close> rounds of it and answers \<open>None\<close> when the handler is still looping then.
\<close>

definition GeneratePostIdStep :: "bsonD \<Rightarrow> 64 word \<Rightarrow> world \<Rightarrow> (err + 64 word) \<times> world" where
  "GeneratePostIdStep flt newPostId w =
     (case FindOne flt optsMaxPostId w of
        (Inl e, w') \<Rightarrow>
          if e = ErrNoDocuments then (Inr newPostId, w') else (Inl errInternal, w')
      | (Inr result, w') \<Rightarrow>
          (case index result 1 of
             None \<Rightarrow> (Inl Panic, w')
           | Some kv \<Rightarrow> (Inr (ExtractUint64 (Some (snd kv)) + 1), w')))"

definition CreatePostStep :: "bsonM \<Rightarrow> 64 word \<Rightarrow> world \<Rightarrow> (err + Response) option \<times> world" where
  "CreatePostStep post newPostId w =
     (case InsertOne (post(postIdKey \<mapsto> VUint64 newPostId)) w of
        (Inl e, w') \<Rightarrow>
          if e = DuplicateKeyError then (None, w') else (Some (Inl errInternal), w')
      | (Inr u, w') \<Rightarrow> (Some (Inr \<lparr>Success = True, Id_r = newPostId\<rparr>), w'))"

fun CreatePost_loop ::
  "nat \<Rightarrow> bsonD \<Rightarrow> bsonM \<Rightarrow> 64 word \<Rightarrow> world \<Rightarrow> (err + Response) option \<times> world" where
  "CreatePost_loop 0 flt post newPostId w = (None, w)"
| "CreatePost_loop (Suc n) flt post newPostId w =
     (case GeneratePostIdStep flt newPostId w of
        (Inl e, w1) \<Rightarrow> (Some (Inl e), w1)
      | (Inr cand, w1) \<Rightarrow>
          (case CreatePostStep post cand w1 of
             (None, w2) \<Rightarrow> CreatePost_loop n flt post cand w2
           | (Some r, w2) \<Rightarrow> (Some r, w2)))"

definition CreatePost :: "nat \<Rightarrow> CreateRequest \<Rightarrow> world \<Rightarrow> (err + Response) option \<times> world" where
  "CreatePost fuel request w =
     (case Connect w of
        (Inl e, w0) \<Rightarrow> (Some (Inl errInternal), w0)
      | (Inr u, w0) \<Rightarrow>
          (let blogId = cr_BlogId request;
               flt = [(blogIdKey, VUint64 blogId)];
               post = [blogIdKey \<mapsto> VUint64 blogId, userIdKey \<mapsto> VUint64 (cr_UserId request),
                       titleKey \<mapsto> VStr (cr_Title request), textKey \<mapsto> VStr (cr_Text request)]
           in CreatePost_loop fuel flt post 1 w0))"


definition GetPosts :: "SearchRequest \<Rightarrow> world \<Rightarrow> (err + Contents) \<times> world" where
  "GetPosts request w =
     (case Connect w of
        (Inl e, w0) \<Rightarrow> (Inl errInternal, w0)
      | (Inr u, w0) \<Rightarrow>
          (let filters0 = [(blogIdKey, VUint64 (sr_BlogId request))];
               filters = (if sr_Filter request \<noteq> []
                          then filters0 @ [(titleKey, VDoc (buildRegexFilter (sr_Filter request)))]
                          else filters0)
           in case CountDocuments filters w0 of
                (Inl e, w1) \<Rightarrow> (Inl errInternal, w1)
              | (Inr total_c, w1) \<Rightarrow>
                  (let start = sr_Start request;
                       paginate = \<lparr>f_Sort = [(postIdKey, VInt (- 1))], f_Skip = Some start,
                                   f_Limit = Some (sr_End request - start)\<rparr>
                   in case Find filters paginate w1 of
                        (Inl e, w2) \<Rightarrow> (Inl errInternal, w2)
                      | (Inr cursor, w2) \<Rightarrow>
                          (case All cursor w2 of
                             (Inl e, w3) \<Rightarrow> (Inl errInternal, w3)
                           | (Inr results, w3) \<Rightarrow>
                               (Inr \<lparr>List_r = ConvertSlice results convertToContent,
                                     Total = total_c\<rparr>, w3)))))"


subsection \<open>The handlers of src/blogserver/blogserver.go\<close>

text \<open>
  \<open>CreatePost\<close> reads \<open>result[0]\<close> and answers without the identifier; \<open>GetPosts\<close> counts
  before it adds the filter on the title, calls \<open>Find\<close> without the options it has built
  and converts with \<open>convertToContents\<close>; \<open>GetPost\<close> and \<open>DeletePost\<close> are those of
  \<^verbatim>\<open>src/server.go\<close> but for the logging.
\<close>

definition GeneratePostIdStep_bs :: "bsonD \<Rightarrow> 64 word \<Rightarrow> world \<Rightarrow> (err + 64 word) \<times> world" where
  "GeneratePostIdStep_bs flt newPostId w =
     (case FindOne flt optsMaxPostId w of
        (Inl e, w') \<Rightarrow>
          if e = ErrNoDocuments then (Inr newPostId, w') else (Inl errInternal, w')
      | (Inr result, w') \<Rightarrow>
          (case index result 0 of
             None \<Rightarrow> (Inl Panic, w')
           | Some kv \<Rightarrow> (Inr (extractUint64 (Some (snd kv)) + 1), w')))"

definition CreatePostStep_bs :: "bsonM \<Rightarrow> 64 word \<Rightarrow> world \<Rightarrow> (err + Response) option \<times> world" where
  "CreatePostStep_bs post newPostId w =
     (case InsertOne (post(postIdKey \<mapsto> VUint64 newPostId)) w of
        (Inl e, w') \<Rightarrow>
          if e = DuplicateKeyError then (None, w') else (Some (Inl errInternal), w')
      | (Inr u, w') \<Rightarrow> (Some (Inr \<lparr>Success = True, Id_r = 0\<rparr>), w'))"

fun CreatePost_loop_bs ::
  "nat \<Rightarrow> bsonD \<Rightarrow> bsonM \<Rightarrow> 64 word \<Rightarrow> world \<Rightarrow> (err + Response) option \<times> world" where
  "CreatePost_loop_bs 0 flt post newPostId w = (None, w)"
| "CreatePost_loop_bs (Suc n) flt post newPostId w =
     (case GeneratePostIdStep_bs flt newPostId w of
        (Inl e, w1) \<Rightarrow> (Some (Inl e), w1)
      | (Inr cand, w1) \<Rightarrow>
          (case CreatePostStep_bs post cand w1 of
             (None, w2) \<Rightarrow> CreatePost_loop_bs n flt post cand w2
           | (Some r, w2) \<Rightarrow> (Some r, w2)))"

definition CreatePost_bs :: "nat \<Rightarrow> CreateRequest \<Rightarrow> world \<Rightarrow> (err + Response) option \<times> world" where
  "CreatePost_bs fuel request w =
     (case Connect w of
        (Inl e, w0) \<Rightarrow> (Some (Inl errInternal), w0)
      | (Inr u, w0) \<Rightarrow>
          (let blogId = cr_BlogId request;
               post = [blogIdKey \<mapsto> VUint64 blogId, userIdKey \<mapsto> VUint64 (cr_UserId request),
                       titleKey \<mapsto> VStr (cr_Title request), textKey \<mapsto> VStr (cr_Text request)]
           in CreatePost_loop_bs fuel [(blogIdKey, VUint64 blogId)] post 1 w0))"


definition GetPosts_bs :: "SearchRequest \<Rightarrow> world \<Rightarrow> (err + Contents) \<times> world" where
  "GetPosts_bs request w =
     (case Connect w of
        (Inl e, w0) \<Rightarrow> (Inl errInternal, w0)
      | (Inr u, w0) \<Rightarrow>
          (let filters0 = [(blogIdKey, VUint64 (sr_BlogId request))]
           in case CountDocuments filters0 w0 of
                (Inl e, w1) \<Rightarrow> (Inl errInternal, w1)
              | (Inr total_c, w1) \<Rightarrow>
                  (let filters = (if sr_Filter request \<noteq> []
                                  then filters0 @ [(titleKey, VDoc (buildFilterRegex (sr_Filter request)))]
                                  else filters0)
                   in case Find filters \<lparr>f_Sort = [], f_Skip = None, f_Limit = None\<rparr> w1 of
                        (Inl e, w2) \<Rightarrow> (Inl errInternal, w2)
                      | (Inr cursor, w2) \<Rightarrow>
                          (case All cursor w2 of
                             (Inl e, w3) \<Rightarrow> (Inl errInternal, w3)
                           | (Inr results, w3) \<Rightarrow>
                               (Inr \<lparr>List_r = convertToContents results, Total = total_c\<rparr>, w3)))))"


subsection \<open>Example worlds\<close>

text \<open>Two blogs: blog 1 with the posts 1 (\<open>cat\<close>) and 2 (\<open>dog\<close>), blog 2 with one post.\<close>

definition ex_post :: "96 word \<Rightarrow> 64 word \<Rightarrow> 64 word \<Rightarrow> string \<Rightarrow> post" where
  "ex_post oid b i t =
     \<lparr>p_id = oid, p_blogId = b, p_postId = i, p_userId = 7, p_title = t, p_text = ''body''\<rparr>"

definition ex_world :: "post list \<Rightarrow> event list \<Rightarrow> world" where
  "ex_world ds evs = \<lparr>docs = ds, script = evs, fresh = 200, regex = simple_regex\<rparr>"

definition ex_blog :: "post list" where
  "ex_blog = [ex_post 100 1 1 ''cat'', ex_post 101 1 2 ''dog'', ex_post 102 2 1 ''cat'']"

text \<open>
  A request to create a post in blog 1, and a script for it: the connection and the first
  query are served undisturbed, another client inserts the post 3 of blog 1 just before the
  insert, and the three posts of blog 1 are deleted just before the second query.
\<close>

definition ex_create :: CreateRequest where
  "ex_create = \<lparr>cr_BlogId = 1, cr_UserId = 9, cr_Title = ''new'', cr_Text = ''hello''\<rparr>"

definition ex_race :: "event list" where
  "ex_race =
     [Others [], Others [], Others [Inserted (ex_post 150 1 3 ''race'')],
      Others [Deleted 1 1, Deleted 1 2, Deleted 1 3]]"

subsection \<open>The normalisation as the specification words it\<close>

text \<open>
  Every \<open>%\<close> is replaced by the token \<open>.*\<close>; the token is put in front if the pattern
  does not start with it, and put behind if the pattern does not end with it.
\<close>

definition spec_normalise :: "string \<Rightarrow> string" where
  "spec_normalise flt0 =
     (let flt = ReplaceAll flt0 ''%'' ''.*''
      in (if take 2 flt = ''.*'' then [] else ''.*'') @ flt @
         (if 2 \<le> length flt \<and> drop (length flt - 2) flt = ''.*'' then [] else ''.*''))"

section \<open>Properties\<close>

subsection \<open>Conversion of documents\<close>

text \<open>
  C9. A stored document converted to a response entity: a title or text that is absent or
  not a string gives the empty string, a \<open>postId\<close> or \<open>userId\<close> that is absent or not an
  \<open>int32\<close> or \<open>int64\<close> gives zero, in both files; the conversion has no failing branch, and
  \<open>ConvertSlice\<close> gives one entity for each document.
\<close>

theorem convertToContent_defaults:
  "((\<forall>s. post titleKey \<noteq> Some (VStr s)) \<longrightarrow>
      Title (convertToContent post) = [] \<and> Title (convertToContent_bs post) = [])
   \<and> ((\<forall>s. post textKey \<noteq> Some (VStr s)) \<longrightarrow>
      Text (convertToContent post) = [] \<and> Text (convertToContent_bs post) = [])
   \<and> ((\<forall>n. post postIdKey \<noteq> Some (VInt32 n)) \<and> (\<forall>n. post postIdKey \<noteq> Some (VInt64 n)) \<longrightarrow>
      PostId (convertToContent post) = 0 \<and> PostId (convertToContent_bs post) = 0)
   \<and> ((\<forall>n. post userIdKey \<noteq> Some (VInt32 n)) \<and> (\<forall>n. post userIdKey \<noteq> Some (VInt64 n)) \<longrightarrow>
      UserId (convertToContent post) = 0 \<and> UserId (convertToContent_bs post) = 0)
   \<and> length (ConvertSlice results convertToContent) = length results"
proof -
  have s: "(\<forall>s. v \<noteq> Some (VStr s)) \<Longrightarrow> as_string v = []" for v
    by (cases v rule: as_string.cases) auto
  have n: "(\<forall>n. v \<noteq> Some (VInt32 n)) \<Longrightarrow> (\<forall>n. v \<noteq> Some (VInt64 n)) \<Longrightarrow> extractUint64 v = 0" for v
    by (cases v rule: extractUint64.cases) auto
  show ?thesis
    by (simp add: convertToContent_def convertToContent_bs_def ExtractUint64_def
        ConvertSlice_def s n)
qed

theorem convertToContent_defaults_witness:
  "convertToContent [titleKey \<mapsto> VInt32 5, postIdKey \<mapsto> VStr ''x'']
     = \<lparr>PostId = 0, UserId = 0, Title = [], Text = [], CreatedAt = 0\<rparr>
   \<and> convertToContent_bs [titleKey \<mapsto> VInt32 5, postIdKey \<mapsto> VStr ''x'']
     = \<lparr>PostId = 0, UserId = 0, Title = [], Text = [], CreatedAt = 0\<rparr>"
  using convertToContent_defaults [of "[titleKey \<mapsto> VInt32 5, postIdKey \<mapsto> VStr ''x'']" "[]"]
  by (simp add: keys_defs convertToContent_def convertToContent_bs_def ExtractCreateDate_Unix_def
        Timestamp_Unix_def ExtractUint64_def)

text \<open>
  C10. In \<^verbatim>\<open>src/blogserver/blogserver.go\<close> \<open>convertToContents\<close> gives the empty list for
  every slice of documents, so every \<open>GetPosts\<close> that succeeds answers an empty page.
\<close>

theorem GetPosts_bs_page_empty:
  "convertToContents posts = [] \<and>
   (fst (GetPosts_bs request w) = Inr c \<longrightarrow> List_r c = [])"
  by (auto simp: GetPosts_bs_def convertToContents_def Let_def split: prod.splits sum.splits)

theorem GetPosts_bs_page_empty_witness:
  "fst (GetPosts_bs \<lparr>sr_BlogId = 1, sr_Start = 0, sr_End = 10, sr_Filter = ''''\<rparr> (ex_world ex_blog []))
     = Inr \<lparr>List_r = [], Total = 2\<rparr>
   \<and> List_r \<lparr>List_r = [], Total = 2\<rparr> = []"
proof -
  have h: "fst (GetPosts_bs \<lparr>sr_BlogId = 1, sr_Start = 0, sr_End = 10, sr_Filter = ''''\<rparr>
             (ex_world ex_blog [])) = Inr \<lparr>List_r = [], Total = 2\<rparr>"
    by code_simp
  from GetPosts_bs_page_empty [of "[]" "\<lparr>sr_BlogId = 1, sr_Start = 0, sr_End = 10, sr_Filter = ''''\<rparr>"
      "ex_world ex_blog []" "\<lparr>List_r = [], Total = 2\<rparr>"] h
  show ?thesis by simp
qed

subsection \<open>Reading and deleting one post\<close>


lemma matches_blog: "matches rx [(blogIdKey, VUint64 b)] = (\<lambda>p. p_blogId p = b)"
  by (rule ext) (simp add: matches_def keys_defs)


lemma marshal_blog: "marshal [(blogIdKey, VUint64 b)] = (b \<le> MaxInt64)"
  by (simp add: marshal_def)

lemma marshal_title:
  "marshal ([(blogIdKey, VUint64 b)] @ [(titleKey, VDoc d)]) = (b \<le> MaxInt64)"
  by (simp add: marshal_def)

lemma serve_fresh: "serve w = (r, w') \<Longrightarrow> fresh w' = fresh w"
  by (auto simp: serve_def split: list.splits event.splits)


lemma serve_empty: "script w = [] \<Longrightarrow> serve w = (None, w)"
  by (simp add: serve_def)





lemma filter_none: "\<not> list_ex P xs \<Longrightarrow> filter P xs = []"
  by (induction xs) auto






subsection \<open>The normalised filter\<close>

lemma Index_lower: "- 1 \<le> Index s sub"
  by (induction s) (auto simp: Let_def)

lemma Index_zero_iff: "Index s sub = 0 \<longleftrightarrow> take (length sub) s = sub"
proof (cases s)
  case Nil
  then show ?thesis by auto
next
  case (Cons c t)
  have "- 1 \<le> Index t sub" by (rule Index_lower)
  then show ?thesis using Cons by (auto simp: Let_def)
qed

lemma take_whole: "take (length sub) s = sub \<Longrightarrow> length sub \<le> length s"
proof -
  assume a: "take (length sub) s = sub"
  have "length (take (length sub) s) = min (length sub) (length s)" by simp
  with a have "length sub = min (length sub) (length s)" by simp
  then show ?thesis by (simp add: min_def split: if_splits)
qed

lemma LastIndex_bounds:
  "LastIndex s sub = - 1 \<or> (0 \<le> LastIndex s sub \<and> LastIndex s sub + int (length sub) \<le> int (length s))"
proof (induction s)
  case Nil
  then show ?case by simp
next
  case (Cons c s)
  show ?case
  proof (cases "0 \<le> LastIndex s sub")
    case True
    with Cons show ?thesis by (auto simp: Let_def)
  next
    case False
    show ?thesis
    proof (cases "take (length sub) (c # s) = sub")
      case True
      then have "length sub \<le> length (c # s)" by (rule take_whole)
      with False True show ?thesis by (simp add: Let_def)
    next
      case F2: False
      with False show ?thesis by (simp add: Let_def)
    qed
  qed
qed

lemma LastIndex_occurrence:
  "0 \<le> LastIndex s sub \<Longrightarrow> take (length sub) (drop (nat (LastIndex s sub)) s) = sub"
proof (induction s)
  case Nil
  then show ?case by (simp split: if_splits)
next
  case (Cons c s)
  show ?case
  proof (cases "0 \<le> LastIndex s sub")
    case True
    then have "nat (LastIndex s sub + 1) = Suc (nat (LastIndex s sub))" by simp
    with True Cons.IH show ?thesis by (simp add: Let_def)
  next
    case False
    with Cons.prems show ?thesis by (simp add: Let_def split: if_splits)
  qed
qed

lemma LastIndex_is_last:
  "take (length sub) (drop j s) = sub \<Longrightarrow> j \<le> length s \<Longrightarrow> int j \<le> LastIndex s sub"
proof (induction s arbitrary: j)
  case Nil
  then show ?case by auto
next
  case (Cons c s)
  show ?case
  proof (cases j)
    case 0
    with Cons.prems show ?thesis by (simp add: Let_def)
  next
    case (Suc k)
    with Cons.prems have "int k \<le> LastIndex s sub" by (intro Cons.IH) simp_all
    with Suc show ?thesis by (simp add: Let_def)
  qed
qed

lemma LastIndex_at_end_iff:
  "LastIndex s sub = int (length s) - int (length sub) \<longleftrightarrow>
     (length sub \<le> length s \<and> drop (length s - length sub) s = sub) \<or> length s + 1 = length sub"
proof
  assume e: "LastIndex s sub = int (length s) - int (length sub)"
  show "(length sub \<le> length s \<and> drop (length s - length sub) s = sub) \<or> length s + 1 = length sub"
  proof (cases "0 \<le> LastIndex s sub")
    case True
    with e have l: "length sub \<le> length s" by simp
    with e have n: "nat (LastIndex s sub) = length s - length sub" by simp
    from LastIndex_occurrence [OF True] n l show ?thesis by simp
  next
    case False
    with LastIndex_bounds [of s sub] have "LastIndex s sub = - 1" by auto
    with e show ?thesis by simp
  qed
next
  assume a: "(length sub \<le> length s \<and> drop (length s - length sub) s = sub) \<or> length s + 1 = length sub"
  then show "LastIndex s sub = int (length s) - int (length sub)"
  proof
    assume b: "length sub \<le> length s \<and> drop (length s - length sub) s = sub"
    then have "take (length sub) (drop (length s - length sub) s) = sub" by simp
    then have "int (length s - length sub) \<le> LastIndex s sub"
      by (rule LastIndex_is_last) simp
    with b LastIndex_bounds [of s sub] show ?thesis by auto
  next
    assume "length s + 1 = length sub"
    with LastIndex_bounds [of s sub] show ?thesis by auto
  qed
qed

lemma ReplaceAll_percent: "CHR ''%'' \<notin> set (ReplaceAll s ''%'' ''.*'')"
  by (induction s) auto

text \<open>
  What \<open>buildRegexFilter\<close> builds, for every pattern: the token is put in front unless the
  pattern (after the replacement of \<open>%\<close>) starts with it, and put behind unless the pattern
  ends with it or is one character long.
\<close>

lemma buildRegexFilter_shape:
  "buildRegexFilter flt0 =
     (let flt = ReplaceAll flt0 ''%'' ''.*'' in
      [(''$regex'', VStr
         ((if take 2 flt = ''.*'' then [] else ''.*'') @ flt @
          (if length flt = 1 \<or> (2 \<le> length flt \<and> drop (length flt - 2) flt = ''.*'')
           then [] else ''.*'')))])"
proof -
  define g where "g = ReplaceAll flt0 ''%'' ''.*''"
  have len: "length ''.*'' = 2" by simp
  have i: "Index g ''.*'' = 0 \<longleftrightarrow> take 2 g = ''.*''"
    using Index_zero_iff [of g "''.*''"] unfolding len .
  have "LastIndex g ''.*'' = int (length g) - int 2 \<longleftrightarrow>
          (2 \<le> length g \<and> drop (length g - 2) g = ''.*'') \<or> length g + 1 = 2"
    using LastIndex_at_end_iff [of g "''.*''"] unfolding len .
  then have l: "LastIndex g ''.*'' = int (length g) - 2 \<longleftrightarrow>
          length g = 1 \<or> (2 \<le> length g \<and> drop (length g - 2) g = ''.*'')"
    by auto
  show ?thesis
    unfolding buildRegexFilter_def Let_def g_def [symmetric]
    by (simp only: i l) simp
qed

lemma buildRegexFilter_cat:
  "buildRegexFilter ''cat'' = [(''$regex'', VStr ''.*cat.*'')]
   \<and> buildRegexFilter ''%cat'' = [(''$regex'', VStr ''.*cat.*'')]
   \<and> buildRegexFilter ''%cat%'' = [(''$regex'', VStr ''.*cat.*'')]"
  by (simp add: buildRegexFilter_def)

text \<open>
  \<open>buildRegexFilter\<close> is the normalisation of the specification on every pattern that is
  not a single character other than \<open>%\<close>.
\<close>

lemma length_ReplaceAll: "length s \<le> length (ReplaceAll s ''%'' ''.*'')"
  by (induction s) auto

lemma buildRegexFilter_refines:
  assumes "length flt0 \<noteq> 1 \<or> flt0 = ''%''"
  shows "buildRegexFilter flt0 = [(''$regex'', VStr (spec_normalise flt0))]"
proof -
  have "length (ReplaceAll flt0 ''%'' ''.*'') \<noteq> 1"
  proof (cases "flt0 = ''%''")
    case True
    then show ?thesis by simp
  next
    case False
    with assms have "length flt0 \<noteq> 1" by simp
    then have "length flt0 = 0 \<or> 2 \<le> length flt0" by arith
    then show ?thesis
    proof
      assume "length flt0 = 0"
      then show ?thesis by simp
    next
      assume "2 \<le> length flt0"
      with length_ReplaceAll [of flt0] show ?thesis by simp
    qed
  qed
  then show ?thesis
    by (simp add: buildRegexFilter_shape spec_normalise_def Let_def)
qed

text \<open>
  C3. The normalisation of the filter, evaluated where it departs from the claim: for the
  pattern \<open>a\<close> of one character \<open>strings.LastIndex\<close> answers \<open>-1\<close>, which is
  \<open>len(filter) - 2\<close>, so no token is appended, in both files, where the specification
  has \<open>.*a.*\<close>; and \<open>buildFilterRegex\<close> of \<^verbatim>\<open>src/blogserver/blogserver.go\<close> leaves
  \<open>%\<close> in the pattern.
\<close>

theorem buildRegexFilter_one_character:
  "buildRegexFilter ''a'' = [(''$regex'', VStr ''.*a'')]
   \<and> spec_normalise ''a'' = ''.*a.*''
   \<and> buildFilterRegex ''a'' = [(''$regex'', VStr ''.*a'')]
   \<and> buildFilterRegex ''%cat'' = [(''$regex'', VStr ''.*%cat.*'')]
   \<and> spec_normalise ''%cat'' = ''.*cat.*''"
  by (simp add: buildRegexFilter_def buildFilterRegex_def spec_normalise_def)

subsection \<open>Searching\<close>

lemma serve_regex: "serve w = (r, w') \<Longrightarrow> regex w' = regex w"
  by (auto simp: serve_def split: list.splits event.splits)

lemma sint_small: "unat k < 2 ^ 63 \<Longrightarrow> sint (k :: 64 word) = int (unat k)"
proof -
  assume a: "unat k < 2 ^ 63"
  have "int (unat k) < int (2 ^ 63)" using a by (rule iffD2 [OF of_nat_less_iff])
  then have u: "uint k < 2 ^ 63" by (simp only: uint_nat of_nat_power of_nat_numeral)
  have "- (2 ^ 63) \<le> (0::int)" by simp
  also have "0 \<le> uint k" by simp
  finally have l: "- (2 ^ 63) \<le> uint k" .
  have "signed_take_bit 63 (uint k) = uint k"
    using l u by (rule signed_take_bit_int_eq_self)
  moreover have "sint k = signed_take_bit (LENGTH(64) - Suc 0) (uint k)"
    by (rule sint_uint)
  moreover have "LENGTH(64) - Suc 0 = 63" by simp
  ultimately show ?thesis by (simp only: uint_nat)
qed

lemma stored_content:
  "convertToContent (map_of (stored p)) =
     \<lparr>PostId = p_postId p, UserId = p_userId p, Title = p_title p, Text = p_text p,
      CreatedAt = Timestamp_Unix (p_id p)\<rparr>"
  by (simp add: convertToContent_def stored_def keys_defs ExtractUint64_def
      ExtractCreateDate_Unix_def)

lemma buildRegexFilter_form: "\<exists>pat. buildRegexFilter flt0 = [(''$regex'', VStr pat)]"
  by (simp add: buildRegexFilter_def Let_def)

lemma matches_title:
  "buildRegexFilter flt0 = [(''$regex'', VStr pat)] \<Longrightarrow>
   matches rx ([(blogIdKey, VUint64 b)] @ [(titleKey, VDoc (buildRegexFilter flt0))]) p
     = (p_blogId p = b \<and> rx pat (p_title p))"
  by (simp add: matches_def keys_defs)

text \<open>The query document of \<open>GetPosts\<close> and the window the options describe.\<close>

lemma GetPosts_served:
  assumes "serve w = (None, w0)" and "serve w0 = (None, w1)" and "serve w1 = (None, w2)"
    and "serve w2 = (None, w3)" and "0 \<le> sint (sr_Start request)"
    and "sr_BlogId request \<le> MaxInt64"
  shows "GetPosts request w =
    (let filters = [(blogIdKey, VUint64 (sr_BlogId request))] @
           (if sr_Filter request \<noteq> [] then [(titleKey, VDoc (buildRegexFilter (sr_Filter request)))] else []);
         found = sort_key (\<lambda>p. - sint (p_postId p)) (filter (matches (regex w) filters) (docs w2));
         skip = nat (sint (sr_Start request));
         limit = sint (sr_End request - sr_Start request)
     in (Inr \<lparr>List_r = map (\<lambda>p. convertToContent (map_of (stored p)))
                 (if limit = 0 then drop skip found else take (nat \<bar>limit\<bar>) (drop skip found)),
              Total = of_nat (length (filter (matches (regex w) filters) (docs w1)))\<rparr>, w3))"
proof -
  have r: "regex w1 = regex w" "regex w2 = regex w"
    using assms(1-3) by (simp_all add: serve_regex)
  have m: "marshal [(blogIdKey, VUint64 (sr_BlogId request))]"
    "marshal ([(blogIdKey, VUint64 (sr_BlogId request))] @
       [(titleKey, VDoc (buildRegexFilter (sr_Filter request)))])"
    using assms(6) by (simp_all only: marshal_blog marshal_title)
  show ?thesis
    using assms m
    by (simp add: GetPosts_def Connect_def CountDocuments_def Find_def All_def sort_docs_def
        ConvertSlice_def Let_def r)
qed

text \<open>
  \<open>GetPosts\<close> of \<^verbatim>\<open>src/server.go\<close> with \<open>start < end\<close> and a blog identifier up to
  \<open>MaxInt64\<close>: the page is the posts that
  match, by descending \<open>postId\<close>, without the first \<open>start\<close> and cut after \<open>end - start\<close>;
  the total counts the posts that match the same query document.
\<close>

lemma GetPosts_page:
  assumes "serve w = (None, w0)" and "serve w0 = (None, w1)" and "serve w1 = (None, w2)"
    and "serve w2 = (None, w3)"
    and "sr_Start request < sr_End request" and "unat (sr_End request) < 2 ^ 63"
    and "sr_BlogId request \<le> MaxInt64"
  shows "fst (GetPosts request w) =
    (let filters = [(blogIdKey, VUint64 (sr_BlogId request))] @
           (if sr_Filter request \<noteq> [] then [(titleKey, VDoc (buildRegexFilter (sr_Filter request)))] else []);
         found = sort_key (\<lambda>p. - sint (p_postId p)) (filter (matches (regex w) filters) (docs w2))
     in Inr \<lparr>List_r = map (\<lambda>p. convertToContent (map_of (stored p)))
                 (take (unat (sr_End request) - unat (sr_Start request))
                    (drop (unat (sr_Start request)) found)),
              Total = of_nat (length (filter (matches (regex w) filters) (docs w1)))\<rparr>)"
proof -
  define n where "n = unat (sr_End request) - unat (sr_Start request)"
  from assms(5) have lt: "unat (sr_Start request) < unat (sr_End request)"
    by (simp add: word_less_nat_alt)
  then have n0: "0 < n" by (simp add: n_def)
  from lt assms(6) have s: "sint (sr_Start request) = int (unat (sr_Start request))"
    by (intro sint_small) simp
  from assms(5) have d: "unat (sr_End request - sr_Start request) = n"
    unfolding n_def by (intro unat_sub) simp
  have "n < 2 ^ 63" using assms(6) by (simp add: n_def)
  then have l: "sint (sr_End request - sr_Start request) = int n"
    using sint_small [of "sr_End request - sr_Start request"] by (simp only: d)
  have p: "0 \<le> sint (sr_Start request)" by (simp add: s)
  have l0: "sint (sr_End request - sr_Start request) \<noteq> 0" using n0 by (simp add: l)
  have l1: "nat \<bar>sint (sr_End request - sr_Start request)\<bar> = n" by (simp add: l)
  have s1: "nat (sint (sr_Start request)) = unat (sr_Start request)" by (simp add: s)
  show ?thesis
    unfolding GetPosts_served [OF assms(1-4) p assms(7)] Let_def n_def [symmetric]
    by (simp only: l0 l1 s1 if_False fst_conv)
qed

text \<open>A blog identifier above \<open>MaxInt64\<close> is refused by the driver at the count.\<close>

lemma GetPosts_refused:
  "serve w = (None, w0) \<Longrightarrow> \<not> sr_BlogId request \<le> MaxInt64 \<Longrightarrow>
   GetPosts request w = (Inl errInternal, w0) \<and> GetPosts_bs request w = (Inl errInternal, w0)"
  by (simp add: GetPosts_def GetPosts_bs_def Connect_def CountDocuments_def marshal_blog
      marshal_def Let_def)

text \<open>
  The total of \<^verbatim>\<open>src/server.go\<close> is the count for the query document with the filter on
  the title, and does not depend on \<open>start\<close> and \<open>end\<close>.
\<close>

lemma GetPosts_Total:
  assumes "fst (GetPosts request w) = Inr c"
  shows "fst (CountDocuments
           (if sr_Filter request \<noteq> []
            then [(blogIdKey, VUint64 (sr_BlogId request))] @
                 [(titleKey, VDoc (buildRegexFilter (sr_Filter request)))]
            else [(blogIdKey, VUint64 (sr_BlogId request))]) (snd (Connect w))) = Inr (Total c)"
proof -
  define F where "F = (if sr_Filter request \<noteq> []
            then [(blogIdKey, VUint64 (sr_BlogId request))] @
                 [(titleKey, VDoc (buildRegexFilter (sr_Filter request)))]
            else [(blogIdKey, VUint64 (sr_BlogId request))])"
  define P where "P = \<lparr>f_Sort = [(postIdKey, VInt (- 1))], f_Skip = Some (sr_Start request),
                      f_Limit = Some (sr_End request - sr_Start request)\<rparr>"
  obtain r0 w0 where c0: "Connect w = (r0, w0)" by (cases "Connect w")
  obtain r1 w1 where c1: "CountDocuments F w0 = (r1, w1)" by (cases "CountDocuments F w0")
  obtain r2 w2 where c2: "Find F P w1 = (r2, w2)" by (cases "Find F P w1")
  have g: "GetPosts request w =
     (case r0 of Inl e \<Rightarrow> (Inl errInternal, w0)
      | Inr u \<Rightarrow> (case r1 of Inl e \<Rightarrow> (Inl errInternal, w1)
          | Inr total_c \<Rightarrow> (case r2 of Inl e \<Rightarrow> (Inl errInternal, w2)
              | Inr cursor \<Rightarrow> (case All cursor w2 of
                    (Inl e, w3) \<Rightarrow> (Inl errInternal, w3)
                  | (Inr results, w3) \<Rightarrow>
                      (Inr \<lparr>List_r = ConvertSlice results convertToContent,
                            Total = total_c\<rparr>, w3)))))"
    unfolding GetPosts_def Let_def F_def [symmetric] P_def [symmetric]
    by (simp only: c0 c1 c2 prod.case)
  from assms show ?thesis
    unfolding F_def [symmetric] g
    by (cases r0; cases r1; cases r2) (auto simp: c0 c1 split: prod.splits sum.splits)
qed

lemma GetPosts_total_independent:
  assumes "fst (GetPosts (request\<lparr>sr_Start := s, sr_End := e\<rparr>) w) = Inr c"
    and "fst (GetPosts request w) = Inr c'"
  shows "Total c = Total c'"
proof -
  define F where "F = (if sr_Filter request \<noteq> []
            then [(blogIdKey, VUint64 (sr_BlogId request))] @
                 [(titleKey, VDoc (buildRegexFilter (sr_Filter request)))]
            else [(blogIdKey, VUint64 (sr_BlogId request))])"
  have a: "fst (CountDocuments F (snd (Connect w))) = Inr (Total c)"
    using GetPosts_Total [OF assms(1)] by (simp add: F_def cong: if_cong)
  have b: "fst (CountDocuments F (snd (Connect w))) = Inr (Total c')"
    using GetPosts_Total [OF assms(2)] by (simp add: F_def cong: if_cong)
  have "(Inr (Total c) :: mongo_err + 64 word) = Inr (Total c')"
    by (rule trans [OF a [symmetric] b])
  then show ?thesis by simp
qed

lemma sort_docs_descending:
  "sorted_wrt (\<lambda>p q. sint (p_postId q) \<le> sint (p_postId p)) (sort_docs [(postIdKey, VInt (- 1))] ds)
   \<and> set (sort_docs [(postIdKey, VInt (- 1))] ds) = set ds
   \<and> length (sort_docs [(postIdKey, VInt (- 1))] ds) = length ds"
proof -
  have "sorted (map (\<lambda>p. - sint (p_postId p)) (sort_key (\<lambda>p. - sint (p_postId p)) ds))"
    by (rule sorted_sort_key)
  then have "sorted_wrt (\<lambda>p q. sint (p_postId q) \<le> sint (p_postId p))
      (sort_key (\<lambda>p. - sint (p_postId p)) ds)"
    by (simp add: sorted_map)
  then show ?thesis by (simp add: sort_docs_def)
qed

text \<open>
  C4. The total of a search with the filter \<open>cat\<close> in blog 1, where one of the two posts
  has a matching title: \<open>GetPosts\<close> of \<^verbatim>\<open>src/blogserver/blogserver.go\<close> counts before it
  adds the filter to the query and answers 2; \<open>GetPosts\<close> of \<^verbatim>\<open>src/server.go\<close> answers 1.
\<close>

theorem GetPosts_bs_total_ignores_filter:
  "fst (GetPosts_bs \<lparr>sr_BlogId = 1, sr_Start = 0, sr_End = 10, sr_Filter = ''cat''\<rparr>
          (ex_world ex_blog []))
     = Inr \<lparr>List_r = [], Total = 2\<rparr>
   \<and> fst (GetPosts \<lparr>sr_BlogId = 1, sr_Start = 0, sr_End = 10, sr_Filter = ''cat''\<rparr>
          (ex_world ex_blog []))
     = Inr \<lparr>List_r = [\<lparr>PostId = 1, UserId = 7, Title = ''cat'', Text = ''body'', CreatedAt = 0\<rparr>],
            Total = 1\<rparr>"
  by code_simp

text \<open>
  C5. The page of the search \<open>(1, "", 0, 2)\<close> over the two posts of blog 1:
  \<open>GetPosts\<close> of \<^verbatim>\<open>src/blogserver/blogserver.go\<close> answers no post, \<open>GetPosts\<close> of
  \<^verbatim>\<open>src/server.go\<close> the posts 2 and 1.
\<close>

theorem GetPosts_bs_no_page:
  "fst (GetPosts_bs \<lparr>sr_BlogId = 1, sr_Start = 0, sr_End = 2, sr_Filter = ''''\<rparr>
          (ex_world ex_blog []))
     = Inr \<lparr>List_r = [], Total = 2\<rparr>
   \<and> fst (GetPosts \<lparr>sr_BlogId = 1, sr_Start = 0, sr_End = 2, sr_Filter = ''''\<rparr>
          (ex_world ex_blog []))
     = Inr \<lparr>List_r = [\<lparr>PostId = 2, UserId = 7, Title = ''dog'', Text = ''body'', CreatedAt = 0\<rparr>,
                     \<lparr>PostId = 1, UserId = 7, Title = ''cat'', Text = ''body'', CreatedAt = 0\<rparr>],
            Total = 2\<rparr>"
  by code_simp

text \<open>
  With \<open>start = end\<close> the limit \<^verbatim>\<open>src/server.go\<close> sends is 0, which the engine reads as
  no limit.
\<close>

lemma GetPosts_empty_window:
  "fst (GetPosts \<lparr>sr_BlogId = 1, sr_Start = 0, sr_End = 0, sr_Filter = ''''\<rparr>
          (ex_world ex_blog []))
     = Inr \<lparr>List_r = [\<lparr>PostId = 2, UserId = 7, Title = ''dog'', Text = ''body'', CreatedAt = 0\<rparr>,
                     \<lparr>PostId = 1, UserId = 7, Title = ''cat'', Text = ''body'', CreatedAt = 0\<rparr>],
            Total = 2\<rparr>"
  by code_simp

subsection \<open>Creating a post\<close>

lemma project_max:
  "project (o_Projection optsMaxPostId) p = [(idKey, VObjectID (p_id p)), (postIdKey, VInt64 (p_postId p))]"
  by (simp add: project_def optsMaxPostId_def stored_def keys_defs)

lemma sort_docs_max:
  "sort_docs (o_Sort optsMaxPostId) ds = sort_key (\<lambda>p. - sint (p_postId p)) ds"
  by (simp add: sort_docs_def optsMaxPostId_def)

lemma FindOne_max:
  "b \<le> MaxInt64 \<Longrightarrow> serve w = (None, w') \<Longrightarrow>
   FindOne [(blogIdKey, VUint64 b)] optsMaxPostId w =
     (case sort_key (\<lambda>p. - sint (p_postId p)) (filter (\<lambda>p. p_blogId p = b) (docs w')) of
        [] \<Rightarrow> (Inl ErrNoDocuments, w')
      | p # ps \<Rightarrow> (Inr [(idKey, VObjectID (p_id p)), (postIdKey, VInt64 (p_postId p))], w'))"
  by (simp add: FindOne_def matches_blog marshal_blog project_max sort_docs_max split: list.splits)

lemma GeneratePostIdStep_served:
  "b \<le> MaxInt64 \<Longrightarrow> serve w = (None, w') \<Longrightarrow>
   GeneratePostIdStep [(blogIdKey, VUint64 b)] n w =
     (case sort_key (\<lambda>p. - sint (p_postId p)) (filter (\<lambda>p. p_blogId p = b) (docs w')) of
        [] \<Rightarrow> (Inr n, w')
      | p # ps \<Rightarrow> (Inr (p_postId p + 1), w'))"
  by (simp add: GeneratePostIdStep_def FindOne_max index_def ExtractUint64_def split: list.splits)

lemma GeneratePostIdStep_bs_served:
  "b \<le> MaxInt64 \<Longrightarrow> serve w = (None, w') \<Longrightarrow>
   GeneratePostIdStep_bs [(blogIdKey, VUint64 b)] n w =
     (case sort_key (\<lambda>p. - sint (p_postId p)) (filter (\<lambda>p. p_blogId p = b) (docs w')) of
        [] \<Rightarrow> (Inr n, w')
      | p # ps \<Rightarrow> (Inr 1, w'))"
  by (simp add: GeneratePostIdStep_bs_def FindOne_max index_def split: list.splits)

lemma sort_key_head:
  "sort_key f xs = y # ys \<Longrightarrow> y \<in> set xs \<and> (\<forall>x\<in>set xs. f y \<le> f x)"
proof -
  assume a: "sort_key f xs = y # ys"
  have "set (sort_key f xs) = set xs" by simp
  with a have s: "set xs = insert y (set ys)" by simp
  have "sorted (map f (sort_key f xs))" by (rule sorted_sort_key)
  with a have "\<forall>x\<in>set ys. f y \<le> f x" by simp
  with s show ?thesis by auto
qed

text \<open>
  The candidate of \<^verbatim>\<open>src/server.go\<close> on the first round, where \<open>newPostId\<close> is still 1:
  1 when the blog has no post, otherwise the greatest \<open>postId\<close> of the blog plus one.
\<close>

lemma GeneratePostIdStep_first:
  assumes "b \<le> MaxInt64" and "serve w = (None, w')"
  shows "\<not> list_ex (\<lambda>p. p_blogId p = b) (docs w') \<Longrightarrow>
           GeneratePostIdStep [(blogIdKey, VUint64 b)] 1 w = (Inr 1, w')"
    and "m \<in> set (docs w') \<Longrightarrow> p_blogId m = b \<Longrightarrow>
         (\<forall>p\<in>set (docs w'). p_blogId p = b \<longrightarrow> sint (p_postId p) \<le> sint (p_postId m)) \<Longrightarrow>
           GeneratePostIdStep [(blogIdKey, VUint64 b)] n w = (Inr (p_postId m + 1), w')"
proof -
  assume "\<not> list_ex (\<lambda>p. p_blogId p = b) (docs w')"
  then have "filter (\<lambda>p. p_blogId p = b) (docs w') = []" by (rule filter_none)
  then show "GeneratePostIdStep [(blogIdKey, VUint64 b)] 1 w = (Inr 1, w')"
    by (simp add: GeneratePostIdStep_served [OF assms])
next
  assume m: "m \<in> set (docs w')" "p_blogId m = b"
    and mx: "\<forall>p\<in>set (docs w'). p_blogId p = b \<longrightarrow> sint (p_postId p) \<le> sint (p_postId m)"
  define xs where "xs = filter (\<lambda>p. p_blogId p = b) (docs w')"
  from m have mem: "m \<in> set xs" by (simp add: xs_def)
  then have "sort_key (\<lambda>p. - sint (p_postId p)) xs \<noteq> []"
    by (metis empty_iff list.set(1) set_sort)
  then obtain y ys where ys: "sort_key (\<lambda>p. - sint (p_postId p)) xs = y # ys"
    by (cases "sort_key (\<lambda>p. - sint (p_postId p)) xs") auto
  from sort_key_head [OF ys] have y: "y \<in> set xs" "\<forall>x\<in>set xs. - sint (p_postId y) \<le> - sint (p_postId x)"
    by auto
  from y(2) mem have "sint (p_postId m) \<le> sint (p_postId y)" by auto
  moreover from y(1) mx have "sint (p_postId y) \<le> sint (p_postId m)" by (simp add: xs_def)
  ultimately have "sint (p_postId y) = sint (p_postId m)" by simp
  then have "p_postId y = p_postId m" by (rule signed_word_eqI)
  with ys show "GeneratePostIdStep [(blogIdKey, VUint64 b)] n w = (Inr (p_postId m + 1), w')"
    by (simp add: GeneratePostIdStep_served [OF assms] xs_def [symmetric])
qed

lemma FindOne_max_form:
  "FindOne flt optsMaxPostId w = (Inr result, w') \<Longrightarrow>
   \<exists>p :: post. result = [(idKey, VObjectID (p_id p)), (postIdKey, VInt64 (p_postId p))]"
  by (auto simp: FindOne_def project_max split: if_splits prod.splits option.splits list.splits)

lemma GeneratePostIdStep_error:
  assumes "GeneratePostIdStep flt n w = (Inl e, w')"
  shows "e = errInternal"
proof -
  obtain r1 w1 where f: "FindOne flt optsMaxPostId w = (r1, w1)"
    by (cases "FindOne flt optsMaxPostId w")
  show ?thesis
  proof (cases r1)
    case (Inl a)
    with assms f show ?thesis
      by (simp add: GeneratePostIdStep_def split: if_splits)
  next
    case (Inr result)
    with f FindOne_max_form obtain p :: post where
      "result = [(idKey, VObjectID (p_id p)), (postIdKey, VInt64 (p_postId p))]"
      by blast
    with assms f Inr show ?thesis
      by (simp add: GeneratePostIdStep_def index_def)
  qed
qed

lemma post_of_fields:
  assumes "post blogIdKey = Some (VUint64 b)" and "post userIdKey = Some (VUint64 u)"
    and "post titleKey = Some (VStr t)" and "post textKey = Some (VStr x)"
  shows "post_of oid (post(postIdKey \<mapsto> VUint64 cand)) =
           (if b \<le> MaxInt64 \<and> cand \<le> MaxInt64 \<and> u \<le> MaxInt64
            then Some \<lparr>p_id = oid, p_blogId = b, p_postId = cand, p_userId = u,
                       p_title = t, p_text = x\<rparr>
            else None)"
proof -
  have k: "blogIdKey \<noteq> postIdKey" "userIdKey \<noteq> postIdKey" "titleKey \<noteq> postIdKey"
    "textKey \<noteq> postIdKey"
    by (simp_all add: keys_defs)
  show ?thesis
    by (simp add: post_of_def k assms)
qed

lemma CreatePostStep_served:
  assumes "serve w = (None, w1)"
    and "post blogIdKey = Some (VUint64 b)" and "post userIdKey = Some (VUint64 u)"
    and "post titleKey = Some (VStr t)" and "post textKey = Some (VStr x)"
    and "b \<le> MaxInt64 \<and> cand \<le> MaxInt64 \<and> u \<le> MaxInt64"
  shows "CreatePostStep post cand w =
    (let p = \<lparr>p_id = fresh w1, p_blogId = b, p_postId = cand, p_userId = u, p_title = t, p_text = x\<rparr>
     in if dup_key p (docs w1) then (None, w1)
        else (Some (Inr \<lparr>Success = True, Id_r = cand\<rparr>),
              w1\<lparr>docs := docs w1 @ [p], fresh := fresh w1 + 1\<rparr>))"
  by (simp add: CreatePostStep_def InsertOne_def assms(1,6) post_of_fields [OF assms(2-5)] Let_def
      serve_fresh [OF assms(1)])

lemma CreatePostStep_bs_served:
  assumes "serve w = (None, w1)"
    and "post blogIdKey = Some (VUint64 b)" and "post userIdKey = Some (VUint64 u)"
    and "post titleKey = Some (VStr t)" and "post textKey = Some (VStr x)"
    and "b \<le> MaxInt64 \<and> cand \<le> MaxInt64 \<and> u \<le> MaxInt64"
  shows "CreatePostStep_bs post cand w =
    (let p = \<lparr>p_id = fresh w1, p_blogId = b, p_postId = cand, p_userId = u, p_title = t, p_text = x\<rparr>
     in if dup_key p (docs w1) then (None, w1)
        else (Some (Inr \<lparr>Success = True, Id_r = 0\<rparr>),
              w1\<lparr>docs := docs w1 @ [p], fresh := fresh w1 + 1\<rparr>))"
  by (simp add: CreatePostStep_bs_def InsertOne_def assms(1,6) post_of_fields [OF assms(2-5)] Let_def
      serve_fresh [OF assms(1)])

lemma CreatePostStep_failed:
  assumes "serve w = (Some e, w1)"
    and "post blogIdKey = Some (VUint64 b)" and "post userIdKey = Some (VUint64 u)"
    and "post titleKey = Some (VStr t)" and "post textKey = Some (VStr x)"
    and "b \<le> MaxInt64 \<and> cand \<le> MaxInt64 \<and> u \<le> MaxInt64"
  shows "CreatePostStep post cand w =
     (if e = DuplicateKeyError then (None, w1) else (Some (Inl errInternal), w1))"
  by (simp add: CreatePostStep_def InsertOne_def assms(1,6) post_of_fields [OF assms(2-5)])

text \<open>
  An identifier the driver refuses (the blog's, the author's, or a candidate above
  \<open>MaxInt64\<close>) ends \<open>CreatePost\<close> with the internal error.
\<close>

lemma CreatePostStep_refused:
  assumes "post blogIdKey = Some (VUint64 b)" and "post userIdKey = Some (VUint64 u)"
    and "post titleKey = Some (VStr t)" and "post textKey = Some (VStr x)"
    and "\<not> (b \<le> MaxInt64 \<and> cand \<le> MaxInt64 \<and> u \<le> MaxInt64)"
  shows "CreatePostStep post cand w = (Some (Inl errInternal), w)"
proof -
  have "post_of (fresh w) (post(postIdKey \<mapsto> VUint64 cand)) = None"
    by (simp only: post_of_fields [OF assms(1-4)] assms(5) if_False)
  then show ?thesis
    by (simp add: CreatePostStep_def InsertOne_def)
qed

lemma serve_cases:
  obtains w1 where "serve w = (None, w1)" | e w1 where "serve w = (Some e, w1)"
  by (cases "serve w") (metis not_None_eq prod.collapse prod.inject surj_pair)

text \<open>
  What \<open>CreatePost\<close> of \<^verbatim>\<open>src/server.go\<close> returns: of the errors only the internal one (a
  conflict is never passed on), and with a success the identifier of the post it has just
  inserted, which is the last of the collection.
\<close>

lemma CreatePost_loop_result:
  assumes "post blogIdKey = Some (VUint64 b)" and "post userIdKey = Some (VUint64 u)"
    and "post titleKey = Some (VStr t)" and "post textKey = Some (VStr x)"
  shows "CreatePost_loop fuel flt post n w = (Some res, w') \<Longrightarrow>
     res = Inl errInternal \<or>
     (\<exists>oid cand. res = Inr \<lparr>Success = True, Id_r = cand\<rparr> \<and> docs w' \<noteq> [] \<and>
        last (docs w') = \<lparr>p_id = oid, p_blogId = b, p_postId = cand, p_userId = u,
                          p_title = t, p_text = x\<rparr>)"
proof (induction fuel arbitrary: n w)
  case 0
  then show ?case by simp
next
  case (Suc fuel)
  obtain r1 w1 where g: "GeneratePostIdStep flt n w = (r1, w1)"
    by (cases "GeneratePostIdStep flt n w")
  show ?case
  proof (cases r1)
    case (Inl e)
    with g have "e = errInternal" by (simp add: GeneratePostIdStep_error)
    with Suc.prems g Inl show ?thesis by simp
  next
    case (Inr cand)
    show ?thesis
    proof (cases "b \<le> MaxInt64 \<and> cand \<le> MaxInt64 \<and> u \<le> MaxInt64")
    case refused: False
    with Suc.prems g Inr show ?thesis
      by (simp add: CreatePostStep_refused [OF assms])
    next
    case enc: True
    show ?thesis
    proof (cases rule: serve_cases [of w1])
      case (1 w2)
      define p where "p = \<lparr>p_id = fresh w2, p_blogId = b, p_postId = cand, p_userId = u,
                            p_title = t, p_text = x\<rparr>"
      have c: "CreatePostStep post cand w1 =
          (if dup_key p (docs w2) then (None, w2)
           else (Some (Inr \<lparr>Success = True, Id_r = cand\<rparr>),
                 w2\<lparr>docs := docs w2 @ [p], fresh := fresh w2 + 1\<rparr>))"
        by (simp add: CreatePostStep_served [OF 1 assms enc] p_def Let_def)
      show ?thesis
      proof (cases "dup_key p (docs w2)")
        case True
        with Suc.prems g Inr c have "CreatePost_loop fuel flt post cand w2 = (Some res, w')"
          by simp
        then show ?thesis by (rule Suc.IH)
      next
        case False
        with Suc.prems g Inr c have "res = Inr \<lparr>Success = True, Id_r = cand\<rparr>"
          and "w' = w2\<lparr>docs := docs w2 @ [p], fresh := fresh w2 + 1\<rparr>"
          by simp_all
        then show ?thesis by (auto simp: p_def)
      qed
    next
      case (2 e w2)
      show ?thesis
      proof (cases "e = DuplicateKeyError")
        case True
        with Suc.prems g Inr have "CreatePost_loop fuel flt post cand w2 = (Some res, w')"
          by (simp add: CreatePostStep_failed [OF 2 assms enc])
        then show ?thesis by (rule Suc.IH)
      next
        case False
        with Suc.prems g Inr show ?thesis
          by (simp add: CreatePostStep_failed [OF 2 assms enc])
      qed
    qed
    qed
  qed
qed

lemma CreatePost_result:
  assumes "CreatePost fuel request w = (Some res, w')"
  shows "res = Inl errInternal \<or>
     (\<exists>oid. res = Inr \<lparr>Success = True, Id_r = p_postId (last (docs w'))\<rparr> \<and> docs w' \<noteq> [] \<and>
        last (docs w') = \<lparr>p_id = oid, p_blogId = cr_BlogId request,
                          p_postId = p_postId (last (docs w')), p_userId = cr_UserId request,
                          p_title = cr_Title request, p_text = cr_Text request\<rparr>)"
proof -
  define post where "post = [blogIdKey \<mapsto> VUint64 (cr_BlogId request),
      userIdKey \<mapsto> VUint64 (cr_UserId request), titleKey \<mapsto> VStr (cr_Title request),
      textKey \<mapsto> VStr (cr_Text request)]"
  have f: "post blogIdKey = Some (VUint64 (cr_BlogId request))"
    "post userIdKey = Some (VUint64 (cr_UserId request))"
    "post titleKey = Some (VStr (cr_Title request))"
    "post textKey = Some (VStr (cr_Text request))"
    by (simp_all add: post_def keys_defs)
  obtain r0 w0 where c: "Connect w = (r0, w0)" by (cases "Connect w")
  show ?thesis
  proof (cases r0)
    case (Inl e)
    with assms c show ?thesis by (simp add: CreatePost_def)
  next
    case (Inr u)
    with assms c have
      "CreatePost_loop fuel [(blogIdKey, VUint64 (cr_BlogId request))] post 1 w0 = (Some res, w')"
      by (simp add: CreatePost_def Let_def post_def)
    from CreatePost_loop_result [OF f this] show ?thesis by auto
  qed
qed

text \<open>
  \<open>CreatePost\<close> of \<^verbatim>\<open>src/blogserver/blogserver.go\<close>, undisturbed, in a blog that has the
  post 1: every round asks for the identifier 1 again and meets the duplicate; the handler
  does not return.
\<close>

lemma CreatePost_loop_bs_forever:
  assumes "script w = []" and "list_ex (\<lambda>p. p_blogId p = b \<and> p_postId p = 1) (docs w)"
    and "post blogIdKey = Some (VUint64 b)" and "post userIdKey = Some (VUint64 u)"
    and "post titleKey = Some (VStr t)" and "post textKey = Some (VStr x)"
    and "b \<le> MaxInt64" and "u \<le> MaxInt64"
  shows "CreatePost_loop_bs fuel [(blogIdKey, VUint64 b)] post n w = (None, w)"
proof (induction fuel arbitrary: n)
  case 0
  then show ?case by simp
next
  case (Suc fuel)
  have s: "serve w = (None, w)" using assms(1) by (rule serve_empty)
  from assms(2) obtain q where q: "q \<in> set (docs w)" "p_blogId q = b" "p_postId q = 1"
    by (auto simp: list_ex_iff)
  then have "q \<in> set (sort_key (\<lambda>p. - sint (p_postId p)) (filter (\<lambda>p. p_blogId p = b) (docs w)))"
    by simp
  then obtain y ys where
    "sort_key (\<lambda>p. - sint (p_postId p)) (filter (\<lambda>p. p_blogId p = b) (docs w)) = y # ys"
    by (cases "sort_key (\<lambda>p. - sint (p_postId p)) (filter (\<lambda>p. p_blogId p = b) (docs w))") auto
  then have g: "GeneratePostIdStep_bs [(blogIdKey, VUint64 b)] n w = (Inr 1, w)"
    by (simp add: GeneratePostIdStep_bs_served [OF assms(7) s])
  have d: "dup_key \<lparr>p_id = fresh w, p_blogId = b, p_postId = 1, p_userId = u, p_title = t,
             p_text = x\<rparr> (docs w)"
    using q by (auto simp: dup_key_def list_ex_iff)
  have enc: "b \<le> MaxInt64 \<and> 1 \<le> MaxInt64 \<and> u \<le> MaxInt64"
    using assms(7,8) by (simp add: MaxInt64_def)
  have c: "CreatePostStep_bs post 1 w = (None, w)"
    by (simp add: CreatePostStep_bs_served [OF s assms(3-6) enc] d Let_def)
  show ?case by (simp add: g c Suc.IH)
qed

lemma CreatePost_bs_forever:
  assumes "script w = []"
    and "list_ex (\<lambda>p. p_blogId p = cr_BlogId request \<and> p_postId p = 1) (docs w)"
    and "cr_BlogId request \<le> MaxInt64" and "cr_UserId request \<le> MaxInt64"
  shows "CreatePost_bs fuel request w = (None, w)"
proof -
  define post where "post = [blogIdKey \<mapsto> VUint64 (cr_BlogId request),
      userIdKey \<mapsto> VUint64 (cr_UserId request), titleKey \<mapsto> VStr (cr_Title request),
      textKey \<mapsto> VStr (cr_Text request)]"
  have f: "post blogIdKey = Some (VUint64 (cr_BlogId request))"
    "post userIdKey = Some (VUint64 (cr_UserId request))"
    "post titleKey = Some (VStr (cr_Title request))"
    "post textKey = Some (VStr (cr_Text request))"
    by (simp_all add: post_def keys_defs)
  have s: "serve w = (None, w)" using assms(1) by (rule serve_empty)
  show ?thesis
    unfolding CreatePost_bs_def Connect_def s Let_def post_def [symmetric]
    by (simp add: CreatePost_loop_bs_forever [OF assms(1,2) f assms(3,4)])
qed

text \<open>
  One round of \<^verbatim>\<open>src/server.go\<close> whose insert fails: on a duplicate key the handler goes
  back to the query, with the candidate as \<open>newPostId\<close>; on any other error it returns the
  internal error.
\<close>

lemma CreatePost_loop_on_insert_error:
  assumes "GeneratePostIdStep flt n w = (Inr cand, w1)"
    and "InsertOne (post(postIdKey \<mapsto> VUint64 cand)) w1 = (Inl e, w2)"
  shows "CreatePost_loop (Suc fuel) flt post n w =
           (if e = DuplicateKeyError then CreatePost_loop fuel flt post cand w2
            else (Some (Inl errInternal), w2))"
  using assms by (simp add: CreatePostStep_def)

text \<open>A blog identifier above \<open>MaxInt64\<close> is refused by the driver at the first query.\<close>

lemma CreatePost_refused:
  "serve w = (None, w0) \<Longrightarrow> \<not> cr_BlogId request \<le> MaxInt64 \<Longrightarrow>
   CreatePost (Suc fuel) request w = (Some (Inl errInternal), w0)
   \<and> CreatePost_bs (Suc fuel) request w = (Some (Inl errInternal), w0)"
  by (simp add: CreatePost_def CreatePost_bs_def Connect_def GeneratePostIdStep_def
      GeneratePostIdStep_bs_def FindOne_def marshal_blog Let_def)

text \<open>A result does not depend on the fuel: more rounds allowed give the same answer.\<close>

lemma CreatePost_loop_more_fuel:
  "CreatePost_loop n flt post c w = (Some r, w') \<Longrightarrow>
   CreatePost_loop (n + k) flt post c w = (Some r, w')"
  by (induction n arbitrary: c w) (auto split: prod.splits sum.splits option.splits)

lemma CreatePost_more_fuel:
  "CreatePost n request w = (Some r, w') \<Longrightarrow> CreatePost (n + k) request w = (Some r, w')"
  by (auto simp: CreatePost_def Let_def CreatePost_loop_more_fuel split: prod.splits sum.splits)

text \<open>
  C1. The candidate identifier in blog 1, whose greatest \<open>postId\<close> is 2:
  \<^verbatim>\<open>src/blogserver/blogserver.go\<close> reads \<open>result[0]\<close>, the \<open>_id\<close> of the document found,
  which is no integer, and asks for 1; undisturbed it then meets the duplicate in every
  round and is still looping after five. \<^verbatim>\<open>src/server.go\<close> reads \<open>result[1]\<close>, asks for
  3 and returns it.
\<close>

theorem GeneratePostIdStep_bs_candidate:
  "fst (GeneratePostIdStep_bs [(blogIdKey, VUint64 1)] 1 (ex_world ex_blog [])) = Inr 1
   \<and> fst (GeneratePostIdStep [(blogIdKey, VUint64 1)] 1 (ex_world ex_blog [])) = Inr 3
   \<and> fst (CreatePost_bs 5 ex_create (ex_world ex_blog [])) = None
   \<and> fst (CreatePost 5 ex_create (ex_world ex_blog [])) = Some (Inr \<lparr>Success = True, Id_r = 3\<rparr>)"
  by code_simp

text \<open>
  C2. \<open>CreatePost\<close> of \<^verbatim>\<open>src/server.go\<close> under the script \<open>ex_race\<close>: the candidate 3
  meets a duplicate; the query of the second round finds no post of blog 1 any more and
  the handler jumps to the insert with \<open>newPostId\<close> as the first round left it, so the post
  gets the identifier 3 in a blog that holds no other post.
\<close>

theorem CreatePost_stale_candidate:
  "fst (CreatePost 2 ex_create (ex_world ex_blog ex_race)) = Some (Inr \<lparr>Success = True, Id_r = 3\<rparr>)
   \<and> map (\<lambda>p. (p_blogId p, p_postId p)) (docs (snd (CreatePost 2 ex_create (ex_world ex_blog ex_race))))
       = [(2, 1), (1, 3)]"
  by code_simp

text \<open>
  C6. A successful \<open>CreatePost\<close> in an empty collection: the post gets the identifier 1;
  \<^verbatim>\<open>src/blogserver/blogserver.go\<close> answers \<open>Response{Success: true}\<close>, whose identifier
  is 0, \<^verbatim>\<open>src/server.go\<close> answers with the identifier 1.
\<close>

theorem CreatePost_bs_no_id:
  "fst (CreatePost_bs 1 ex_create (ex_world [] [])) = Some (Inr \<lparr>Success = True, Id_r = 0\<rparr>)
   \<and> map (\<lambda>p. (p_blogId p, p_postId p)) (docs (snd (CreatePost_bs 1 ex_create (ex_world [] []))))
       = [(1, 1)]
   \<and> fst (CreatePost 1 ex_create (ex_world [] [])) = Some (Inr \<lparr>Success = True, Id_r = 1\<rparr>)"
  by code_simp

text \<open>
  Where the second query finds posts, the candidate comes from it: two posts raced in, and
  the second round asks for 5, not for 3 + 1.
\<close>

lemma CreatePost_retry_fresh:
  "fst (CreatePost 2 ex_create
          (ex_world ex_blog [Others [], Others [],
             Others [Inserted (ex_post 150 1 3 ''race''), Inserted (ex_post 151 1 4 ''race'')]]))
     = Some (Inr \<lparr>Success = True, Id_r = 5\<rparr>)"
  by code_simp

end
